theory Spec2Isabelle
  imports Main "HOL-Library.Sublist"
begin

section \<open>The tabix binding: data model\<close>

text \<open>
  The repository's Python source is \<^verbatim>\<open>tabix/tabixffi.py\<close>: the class \<^verbatim>\<open>Tabix\<close>,
  a thin layer over the C library declared in its \<^verbatim>\<open>ffi.cdef\<close> block. The C sources
  themselves (\<^verbatim>\<open>tabix/C/*.c\<close>) are not available; their behaviour is taken from the
  specification and every such definition is marked \<open>Modelled from the spec\<close>.
  The methods of \<^verbatim>\<open>Tabix\<close> are translated from the Python.
\<close>

subsection \<open>Errors\<close>

text \<open>The error taxonomy of the engine (specification, section 7).\<close>

datatype error =
    UnsortedInput | CoordinateOverflow | CorruptBlock | TruncatedIndex
  | BadMagic | UnknownSequence | InvalidRange | IndexMissing

text \<open>
  What a Python caller can see raised: the \<^verbatim>\<open>assert\<close> statements, the
  \<^verbatim>\<open>raise Exception(...)\<close> of the constructor and the argument conversion errors of
  cffi. An error of the engine is not among them: the C functions return pointers and
  integers, and but for the \<^verbatim>\<open>assert\<close> on the return code of \<^verbatim>\<open>ti_index_build\<close>
  no line of the wrapper turns one into an exception.
\<close>

datatype exn = AssertionError | Exception string | TypeError | UnicodeDecodeError

subsection \<open>Records, configuration, index\<close>

text \<open>
  One line of the data file with the interval derived from its columns: 0-based,
  half-open (specification, section 3, Interval).
\<close>

record rec =
  r_seq :: string
  r_start :: int
  r_end :: int
  r_line :: string

text \<open>\<^verbatim>\<open>ti_conf_t\<close> of the cdef block.\<close>

record ti_conf =
  preset :: int
  sc :: int
  bc :: int
  ec :: int
  meta_char :: char
  line_skip :: int

text \<open>
  The persisted index: the sequence dictionary in insertion order, the build metadata
  and, for every indexed record, its sequence id, the bin it is filed under and its
  position in the data file (the position stands for the virtual offset).
\<close>

record tbi =
  ix_names :: "string list"
  ix_conf :: ti_conf
  ix_entries :: "(nat \<times> nat \<times> nat) list"

record disk =
  data_files :: "string \<rightharpoonup> rec list"
  index_files :: "string \<rightharpoonup> tbi"

definition exists_path :: "disk \<Rightarrow> string \<Rightarrow> bool" where
  \<comment> \<open>\<^verbatim>\<open>op.exists\<close>\<close>
  "exists_path d p \<longleftrightarrow> data_files d p \<noteq> None \<or> index_files d p \<noteq> None"

subsection \<open>The native library as a parameter\<close>

text \<open>
  The answers of the C library: what \<^verbatim>\<open>ti_index_build\<close> returns and leaves on disk,
  the name array of \<^verbatim>\<open>ti_seqname\<close>, the configuration of \<^verbatim>\<open>ti_get_conf\<close>, and the
  record lines that the iterator returned for a query will hand out to successive
  \<^verbatim>\<open>ti_read\<close> calls before its NULL. The wrapper is modelled over any such library.
\<close>

record engine =
  eng_build :: "string \<Rightarrow> ti_conf \<Rightarrow> disk \<Rightarrow> int \<times> disk"
  eng_seqname :: "disk \<Rightarrow> string \<Rightarrow> string list"
  eng_conf :: "disk \<Rightarrow> string \<Rightarrow> ti_conf"
  eng_querys :: "disk \<Rightarrow> string \<Rightarrow> string \<Rightarrow> string list"
  eng_query :: "disk \<Rightarrow> string \<Rightarrow> string \<Rightarrow> int \<Rightarrow> int \<Rightarrow> string list"

subsection \<open>The world the wrapper runs in\<close>

text \<open>
  \<^verbatim>\<open>tabix_t *\<close>: the pointer returned by \<^verbatim>\<open>ti_open\<close>, with the file it was called on.
  The wrapper never tests a pointer it gets from the library, so the model numbers
  every pointer returned, also that of a call that failed.
\<close>

datatype tabix_t = Tabix_t (t_id: nat) (t_fn: string)

text \<open>
  The cffi pointer types that matter: a \<^verbatim>\<open>tabix_t *\<close> and the \<^verbatim>\<open>ti_index_t *\<close> held
  in its \<^verbatim>\<open>idx\<close> field.
\<close>

datatype cdata = TabixPtr tabix_t | IndexPtr tabix_t

text \<open>Every call that reaches the C library is logged.\<close>

datatype event =
    Ti_open string
  | Ti_lazy_index_load nat
  | Ti_get_conf nat
  | Ti_index_build string ti_conf
  | Ti_seqname nat
  | Free
  | Ti_querys nat string
  | Ti_query nat string int int
  | Ti_read nat nat
  | Ti_iter_destroy nat
  | Ti_index_destroy nat
  | Ti_close nat

record world =
  disk :: disk
  opened :: "nat set"
  next_handle :: nat
  iters :: "nat \<rightharpoonup> string list"
  next_iter :: nat
  trace :: "event list"

definition log :: "event \<Rightarrow> world \<Rightarrow> world" where
  "log ev w = w\<lparr>trace := trace w @ [ev]\<rparr>"

text \<open>The instance attributes \<^verbatim>\<open>_tabix\<close>, \<^verbatim>\<open>_conf\<close> and \<^verbatim>\<open>fn\<close>.\<close>

record tabix_obj =
  self_tabix :: tabix_t
  self_conf :: ti_conf
  self_fn :: string

section \<open>The calls into the C library\<close>

definition ti_open :: "string \<Rightarrow> world \<Rightarrow> tabix_t \<times> world" where
  \<comment> \<open>Modelled from the spec: \<^verbatim>\<open>ti_open\<close> (C source missing); \<open>openIndexed\<close> loads the
      existing index, and where none is found the open fails: the pointer it returns is
      not among the open handles.\<close>
  "ti_open fn w =
     (let w1 = log (Ti_open fn) w in
      (Tabix_t (next_handle w1) fn,
       w1\<lparr>opened :=
            (case index_files (disk w1) (fn @ ''.tbi'') of
               None \<Rightarrow> opened w1
             | Some ix \<Rightarrow> insert (next_handle w1) (opened w1)),
          next_handle := Suc (next_handle w1)\<rparr>))"

definition ti_lazy_index_load :: "tabix_t \<Rightarrow> world \<Rightarrow> world" where
  \<comment> \<open>Modelled from the spec: \<^verbatim>\<open>ti_lazy_index_load\<close> (C source missing); the index is
      immutable after load, the call changes nothing the wrapper can see.\<close>
  "ti_lazy_index_load t w = log (Ti_lazy_index_load (t_id t)) w"

definition ti_get_conf :: "engine \<Rightarrow> tabix_t \<Rightarrow> world \<Rightarrow> ti_conf \<times> world" where
  \<comment> \<open>Modelled from the spec: \<^verbatim>\<open>ti_get_conf\<close> (C source missing); the build metadata of
      the loaded index.\<close>
  "ti_get_conf eng t w = (eng_conf eng (disk w) (t_fn t), log (Ti_get_conf (t_id t)) w)"

definition ti_index_build :: "engine \<Rightarrow> string \<Rightarrow> ti_conf \<Rightarrow> world \<Rightarrow> int \<times> world" where
  \<comment> \<open>Modelled from the spec: \<^verbatim>\<open>ti_index_build\<close> (C source missing); the return code and
      the disk it leaves are the library's.\<close>
  "ti_index_build eng fname c w =
     (let w1 = log (Ti_index_build fname c) w in
      case eng_build eng fname c (disk w1) of (rc, d) \<Rightarrow> (rc, w1\<lparr>disk := d\<rparr>))"

definition ti_seqname :: "engine \<Rightarrow> tabix_t \<Rightarrow> world \<Rightarrow> (string list \<times> nat) \<times> world" where
  \<comment> \<open>Modelled from the spec: \<^verbatim>\<open>ti_seqname\<close> (C source missing); the array of names and,
      through the \<^verbatim>\<open>int *\<close>, its length.\<close>
  "ti_seqname eng t w =
     (let names = eng_seqname eng (disk w) (t_fn t)
      in ((names, length names), log (Ti_seqname (t_id t)) w))"

definition free :: "world \<Rightarrow> world" where
  "free w = log Free w"

definition new_iter :: "string list \<Rightarrow> world \<Rightarrow> nat \<times> world" where
  "new_iter items w =
     (next_iter w,
      w\<lparr>iters := (iters w)(next_iter w \<mapsto> items), next_iter := Suc (next_iter w)\<rparr>)"

definition ti_querys :: "engine \<Rightarrow> tabix_t \<Rightarrow> string \<Rightarrow> world \<Rightarrow> nat \<times> world" where
  \<comment> \<open>Modelled from the spec: \<^verbatim>\<open>ti_querys\<close> (C source missing); the \<^verbatim>\<open>ti_iter_t\<close> it
      returns, with the records the library will read from it.\<close>
  "ti_querys eng t reg w =
     (let w1 = log (Ti_querys (t_id t) reg) w
      in new_iter (eng_querys eng (disk w1) (t_fn t) reg) w1)"

definition ti_query :: "engine \<Rightarrow> tabix_t \<Rightarrow> string \<Rightarrow> int \<Rightarrow> int \<Rightarrow> world \<Rightarrow> nat \<times> world" where
  \<comment> \<open>Modelled from the spec: \<^verbatim>\<open>ti_query\<close> (C source missing); the \<^verbatim>\<open>ti_iter_t\<close> it
      returns, with the records the library will read from it.\<close>
  "ti_query eng t name beg en w =
     (let w1 = log (Ti_query (t_id t) name beg en) w
      in new_iter (eng_query eng (disk w1) (t_fn t) name beg en) w1)"

definition ti_read :: "tabix_t \<Rightarrow> nat \<Rightarrow> world \<Rightarrow> string option \<times> world" where
  \<comment> \<open>Modelled from the spec: \<^verbatim>\<open>ti_read\<close> (C source missing); the next record of the
      iterator, \<open>None\<close> for the NULL pointer at its end.\<close>
  "ti_read t it w =
     (let w1 = log (Ti_read (t_id t) it) w in
      case iters w1 it of
        None \<Rightarrow> (None, w1)
      | Some [] \<Rightarrow> (None, w1)
      | Some (ln # rest) \<Rightarrow> (Some ln, w1\<lparr>iters := (iters w1)(it \<mapsto> rest)\<rparr>))"

definition ti_iter_destroy :: "nat \<Rightarrow> world \<Rightarrow> world" where
  \<comment> \<open>Modelled from the spec: \<^verbatim>\<open>ti_iter_destroy\<close> (C source missing); releases the
      iterator and its read position.\<close>
  "ti_iter_destroy it w = (log (Ti_iter_destroy it) w)\<lparr>iters := (iters w)(it := None)\<rparr>"

definition ti_close :: "tabix_t \<Rightarrow> world \<Rightarrow> world" where
  \<comment> \<open>Modelled from the spec: \<^verbatim>\<open>ti_close\<close> (C source missing); \<open>close(handle)\<close> is
      idempotent and releases all open stream handles.\<close>
  "ti_close t w = (log (Ti_close (t_id t)) w)\<lparr>opened := opened w - {t_id t}\<rparr>"

definition ti_index_destroy :: "cdata \<Rightarrow> world \<Rightarrow> (exn + unit) \<times> world" where
  \<comment> \<open>The cdef block declares \<^verbatim>\<open>void ti_index_destroy(ti_index_t *idx)\<close>: cffi converts
      the argument first and raises \<^verbatim>\<open>TypeError\<close> for a pointer of another type, before
      the C function is entered.\<close>
  "ti_index_destroy p w =
     (case p of
        IndexPtr t \<Rightarrow> (Inr (), log (Ti_index_destroy (t_id t)) w)
      | TabixPtr t \<Rightarrow> (Inl TypeError, w))"

section \<open>The class Tabix\<close>

subsection \<open>close and the finaliser\<close>

definition Tabix_close :: "tabix_obj \<Rightarrow> world \<Rightarrow> (exn + unit) \<times> world" where
  "Tabix_close self w = (Inr (), ti_close (self_tabix self) w)"

definition Tabix_del :: "tabix_obj \<Rightarrow> world \<Rightarrow> (exn + unit) \<times> world" where
  \<comment> \<open>\<^verbatim>\<open>try: C.ti_index_destroy(self._tabix); self.close()  except: pass\<close>\<close>
  "Tabix_del self w =
     (case ti_index_destroy (TabixPtr (self_tabix self)) w of
        (Inl e, w1) \<Rightarrow> (Inr (), w1)
      | (Inr u, w1) \<Rightarrow>
          (case Tabix_close self w1 of
             (Inl e, w2) \<Rightarrow> (Inr (), w2)
           | (Inr u', w2) \<Rightarrow> (Inr (), w2)))"

subsection \<open>The query generator\<close>

text \<open>
  \<^verbatim>\<open>__call__\<close> contains \<^verbatim>\<open>yield\<close>: calling it runs nothing and returns a generator.
  The generator is either not started yet (it holds the arguments), suspended at the
  \<^verbatim>\<open>yield\<close> inside the \<^verbatim>\<open>try\<close> block (it holds the native iterator), or finished.
\<close>

datatype gen =
    Created tabix_obj string "int option" "int option"
  | Suspended tabix_obj nat
  | Finished

text \<open>What one \<^verbatim>\<open>next()\<close> gives the caller: a value, an exception, or \<^verbatim>\<open>StopIteration\<close>.\<close>

datatype outcome = Yield string | Raise exn | Stop

definition Tabix_call ::
  "tabix_obj \<Rightarrow> string \<Rightarrow> int option \<Rightarrow> int option \<Rightarrow> world \<Rightarrow> (exn + gen) \<times> world" where
  "Tabix_call self region start en w = (Inr (Created self region start en), w)"

definition call_loop :: "tabix_obj \<Rightarrow> nat \<Rightarrow> world \<Rightarrow> outcome \<times> gen \<times> world" where
  \<comment> \<open>From \<^verbatim>\<open>next_rec = C.ti_read(...)\<close> to the next \<^verbatim>\<open>yield\<close> or, when the pointer
      read is NULL, to the end of the \<^verbatim>\<open>try\<close> block, whose \<^verbatim>\<open>finally\<close> destroys the
      iterator.\<close>
  "call_loop self it w =
     (case ti_read (self_tabix self) it w of
        (None, w1) \<Rightarrow> (Stop, Finished, ti_iter_destroy it w1)
      | (Some ln, w1) \<Rightarrow> (Yield ln, Suspended self it, w1))"

definition call_start ::
  "engine \<Rightarrow> tabix_obj \<Rightarrow> string \<Rightarrow> int option \<Rightarrow> int option \<Rightarrow> world \<Rightarrow> outcome \<times> gen \<times> world" where
  \<comment> \<open>The body from its first line. The pointer a query returns is not tested: the
      first \<^verbatim>\<open>ti_read\<close> follows in every case. With \<^verbatim>\<open>start\<close> given and \<^verbatim>\<open>end\<close>
      omitted, cffi cannot convert \<^verbatim>\<open>None\<close> to the \<^verbatim>\<open>int\<close> parameter of
      \<^verbatim>\<open>ti_query\<close>. The coordinates are those a C \<^verbatim>\<open>int\<close> holds; Python integers
      beyond it, which cffi refuses to convert, are outside the model.\<close>
  "call_start eng self region start en w =
     (case start of
        None \<Rightarrow>
          (case en of
             Some e \<Rightarrow> (Raise AssertionError, Finished, w)
           | None \<Rightarrow>
               (case ti_querys eng (self_tabix self) region w of
                  (it, w1) \<Rightarrow> call_loop self it w1))
      | Some s \<Rightarrow>
          (case en of
             None \<Rightarrow> (Raise TypeError, Finished, w)
           | Some e \<Rightarrow>
               (case ti_query eng (self_tabix self) region s e w of
                  (it, w1) \<Rightarrow> call_loop self it w1)))"

definition gen_next :: "engine \<Rightarrow> gen \<Rightarrow> world \<Rightarrow> outcome \<times> gen \<times> world" where
  "gen_next eng g w =
     (case g of
        Created self region start en \<Rightarrow> call_start eng self region start en w
      | Suspended self it \<Rightarrow> call_loop self it w
      | Finished \<Rightarrow> (Stop, Finished, w))"

definition gen_close :: "gen \<Rightarrow> world \<Rightarrow> gen \<times> world" where
  \<comment> \<open>\<^verbatim>\<open>GeneratorExit\<close> is raised at the \<^verbatim>\<open>yield\<close>; the \<^verbatim>\<open>finally\<close> block runs. A
      generator that was never started has no frame to unwind.\<close>
  "gen_close g w =
     (case g of
        Suspended self it \<Rightarrow> (Finished, ti_iter_destroy it w)
      | _ \<Rightarrow> (Finished, w))"

definition gen_throw :: "exn \<Rightarrow> gen \<Rightarrow> world \<Rightarrow> outcome \<times> gen \<times> world" where
  "gen_throw x g w =
     (case g of
        Suspended self it \<Rightarrow> (Raise x, Finished, ti_iter_destroy it w)
      | _ \<Rightarrow> (Raise x, Finished, w))"





text \<open>Any way a caller can drive a generator: pull, close (or drop) it, throw into it.\<close>

datatype gen_op = Next | Close | Throw exn

fun apply_op :: "engine \<Rightarrow> gen_op \<Rightarrow> gen \<times> world \<Rightarrow> gen \<times> world" where
  "apply_op eng Next (g, w) = snd (gen_next eng g w)"
| "apply_op eng Close (g, w) = gen_close g w"
| "apply_op eng (Throw x) (g, w) = snd (gen_throw x g w)"

fun run_ops :: "engine \<Rightarrow> gen_op list \<Rightarrow> gen \<times> world \<Rightarrow> gen \<times> world" where
  "run_ops eng [] s = s"
| "run_ops eng (x # xs) s = run_ops eng xs (apply_op eng x s)"

subsection \<open>The sequence names\<close>

definition ascii :: "string \<Rightarrow> bool" where
  "ascii s = list_all (\<lambda>c. (of_char c :: nat) < 128) s"

definition decode :: "string \<Rightarrow> exn + string" where
  \<comment> \<open>\<^verbatim>\<open>.decode()\<close> with the default codec of the Python 2 the module is written
      for: ASCII text is returned as it is, any other byte raises.\<close>
  "decode s = (if ascii s then Inr s else Inl UnicodeDecodeError)"

fun decode_all :: "string list \<Rightarrow> exn + string list" where
  "decode_all [] = Inr []"
| "decode_all (s # ss) =
     (case decode s of
        Inl e \<Rightarrow> Inl e
      | Inr u \<Rightarrow> (case decode_all ss of Inl e \<Rightarrow> Inl e | Inr us \<Rightarrow> Inr (u # us)))"

definition Tabix_sequences :: "engine \<Rightarrow> tabix_obj \<Rightarrow> world \<Rightarrow> (exn + string list) \<times> world" where
  \<comment> \<open>\<^verbatim>\<open>[ffi.string(cnames[i]).decode() for i in range(n[0])]\<close>, then
      \<^verbatim>\<open>C.free(cnames)\<close> in the \<^verbatim>\<open>finally\<close> block.\<close>
  "Tabix_sequences eng self w =
     (case ti_seqname eng (self_tabix self) w of
        ((cnames, n), w1) \<Rightarrow> (decode_all (map (\<lambda>i. cnames ! i) [0..<n]), free w1))"

subsection \<open>The constructor and build\<close>

definition endswith :: "string \<Rightarrow> string \<Rightarrow> bool" where
  "endswith s suf \<longleftrightarrow> suffix suf s"

definition build_args :: "string \<Rightarrow> (int \<times> int \<times> int \<times> char \<times> int) option" where
  \<comment> \<open>The \<^verbatim>\<open>if/elif\<close> chain of \<^verbatim>\<open>__init__\<close>: the arguments it passes to
      \<^verbatim>\<open>Tabix.build\<close> (the defaults of \<^verbatim>\<open>build\<close> for \<^verbatim>\<open>.bed.gz\<close>), \<open>None\<close> where it
      raises.\<close>
  "build_args fn =
     (if endswith fn ''.bed.gz'' then Some (1, 2, 3, CHR ''#'', 0)
      else if endswith fn ''.gff.gz'' \<or> endswith fn ''.gtf.gz'' then Some (1, 4, 5, CHR ''#'', 0)
      else if endswith fn ''.vcf.gz'' then Some (1, 2, 0, CHR ''#'', 0)
      else None)"

definition make_conf :: "int \<Rightarrow> int \<Rightarrow> int \<Rightarrow> char \<Rightarrow> int \<Rightarrow> ti_conf" where
  "make_conf seq_col start_col end_col comment skip =
     \<lparr>preset = 0, sc = seq_col, bc = start_col, ec = end_col,
      meta_char = comment, line_skip = skip\<rparr>"

definition init_open :: "engine \<Rightarrow> string \<Rightarrow> world \<Rightarrow> (exn + tabix_obj) \<times> world" where
  \<comment> \<open>\<^verbatim>\<open>self._tabix = C.ti_open(fn, ffi.NULL)\<close> and the three lines that end
      \<^verbatim>\<open>__init__\<close>: the pointer is kept untested and the constructor returns.\<close>
  "init_open eng fn w =
     (case ti_open fn w of
        (t, w1) \<Rightarrow>
          (case ti_get_conf eng t (ti_lazy_index_load t w1) of
             (c, w2) \<Rightarrow> (Inr \<lparr>self_tabix = t, self_conf = c, self_fn = fn\<rparr>, w2)))"

text \<open>
  \<^verbatim>\<open>__init__\<close> calls \<^verbatim>\<open>Tabix.build\<close>, which ends with \<^verbatim>\<open>return Tabix(fname)\<close>: the
  constructor runs again on the same path, and nothing in the Python bounds the
  recursion (\<open>None\<close> is the constructor that never returns). The instance \<^verbatim>\<open>build\<close>
  returns is dropped by \<^verbatim>\<open>__init__\<close>, so its finaliser runs at once.
\<close>

partial_function (option) Tabix_init ::
  "engine \<Rightarrow> string \<Rightarrow> world \<Rightarrow> ((exn + tabix_obj) \<times> world) option" where
  "Tabix_init eng fn w =
     (if exists_path (disk w) (fn @ ''.tbi'') then Some (init_open eng fn w)
      else
        (case build_args fn of
           None \<Rightarrow> Some (Inl (Exception (fn @ ''.tbi not found and filetype not known'')), w)
         | Some (seq_col, start_col, end_col, comment, skip) \<Rightarrow>
             (case ti_index_build eng fn (make_conf seq_col start_col end_col comment skip) w of
                (rc, w1) \<Rightarrow>
                  if rc = - 1 then Some (Inl AssertionError, w1)
                  else
                    Option.bind (Tabix_init eng fn w1)
                      (\<lambda>(r, w2).
                         case r of
                           Inl e \<Rightarrow> Some (Inl e, w2)
                         | Inr built \<Rightarrow> Some (init_open eng fn (snd (Tabix_del built w2)))))))"

definition Tabix_build ::
  "engine \<Rightarrow> string \<Rightarrow> int \<Rightarrow> int \<Rightarrow> int \<Rightarrow> char \<Rightarrow> int \<Rightarrow> world
     \<Rightarrow> ((exn + tabix_obj) \<times> world) option" where
  "Tabix_build eng fname seq_col start_col end_col comment skip w =
     (case ti_index_build eng fname (make_conf seq_col start_col end_col comment skip) w of
        (rc, w1) \<Rightarrow>
          if rc = - 1 then Some (Inl AssertionError, w1)
          else Tabix_init eng fname w1)"

section \<open>The engine as the specification describes it\<close>

subsection \<open>Binning scheme\<close>

text \<open>
  Specification, section 4.3: five levels, bin widths 512 Mb, 64 Mb, 8 Mb, 1 Mb and
  128 Kb from coarsest (level 0) to finest (level 4), a fan-out of eight per level.
  The bins of one level are numbered after those of the coarser levels.
\<close>

definition bin_width :: "nat \<Rightarrow> int" where
  \<comment> \<open>Modelled from the spec: the Binning Scheme (C source missing).\<close>
  "bin_width l = 2 ^ (29 - 3 * l)"

definition max_coord :: int where
  \<comment> \<open>Modelled from the spec: the maximum representable coordinate of the scheme, the
      width of the coarsest bin.\<close>
  "max_coord = 2 ^ 29"

definition level_offset :: "nat \<Rightarrow> nat" where
  "level_offset l = (8 ^ l - 1) div 7"

definition bin_id :: "nat \<Rightarrow> int \<Rightarrow> nat" where
  "bin_id l k = level_offset l + nat k"

fun binOf_from :: "nat list \<Rightarrow> int \<Rightarrow> int \<Rightarrow> nat" where
  "binOf_from [] s e = bin_id 0 0"
| "binOf_from (l # ls) s e =
     (if s div bin_width l = (e - 1) div bin_width l then bin_id l (s div bin_width l)
      else binOf_from ls s e)"

definition binOf :: "int \<Rightarrow> int \<Rightarrow> nat" where
  \<comment> \<open>Modelled from the spec: \<open>binOf(start, end)\<close>, the bin at the finest level that
      fully contains the interval, walking up coarser levels when it straddles a
      boundary.\<close>
  "binOf s e = binOf_from [4, 3, 2, 1] s e"

definition level_bins :: "nat \<Rightarrow> int \<Rightarrow> int \<Rightarrow> nat list" where
  "level_bins l s e =
     map (bin_id l) [max 0 (s div bin_width l) .. (e - 1) div bin_width l]"

definition binsOverlapping :: "int \<Rightarrow> int \<Rightarrow> nat list" where
  \<comment> \<open>Modelled from the spec: \<open>binsOverlapping(start, end)\<close>, every bin at every level
      whose span intersects the range.\<close>
  "binsOverlapping s e = concat (map (\<lambda>l. level_bins l s e) [0, 1, 2, 3, 4])"

subsection \<open>Index builder\<close>

fun check_sorted :: "string list \<Rightarrow> (string \<times> int) option \<Rightarrow> rec list \<Rightarrow> bool" where
  \<comment> \<open>Modelled from the spec: the sortedness precondition of the Index Builder, checked
      by comparing successive starts: records grouped by sequence (a sequence that was
      left does not come back) and, within a sequence, starts ascending.\<close>
  "check_sorted seen cur [] = True"
| "check_sorted seen None (r # rs) =
     check_sorted (r_seq r # seen) (Some (r_seq r, r_start r)) rs"
| "check_sorted seen (Some (q, s)) (r # rs) =
     (if r_seq r = q then s \<le> r_start r \<and> check_sorted seen (Some (q, r_start r)) rs
      else r_seq r \<notin> set seen
        \<and> check_sorted (r_seq r # seen) (Some (r_seq r, r_start r)) rs)"

fun check_coords :: "rec list \<Rightarrow> error option" where
  \<comment> \<open>Modelled from the spec: zero-length or inverted intervals are rejected at build
      time (the specification names no error for it, \<open>InvalidRange\<close> stands for it);
      intervals beyond the maximum representable coordinate fail
      \<open>CoordinateOverflow\<close>.\<close>
  "check_coords [] = None"
| "check_coords (r # rs) =
     (if r_start r < 0 \<or> max_coord < r_end r then Some CoordinateOverflow
      else if r_end r \<le> r_start r then Some InvalidRange
      else check_coords rs)"

fun dictionary :: "string list \<Rightarrow> string list \<Rightarrow> string list" where
  \<comment> \<open>Modelled from the spec: the sequence dictionary, names in insertion order, the
      order of declaration in the sorted input; names are unique.\<close>
  "dictionary acc [] = acc"
| "dictionary acc (n # ns) = dictionary (if n \<in> set acc then acc else acc @ [n]) ns"

fun index_of :: "string \<Rightarrow> string list \<Rightarrow> nat option" where
  "index_of n [] = None"
| "index_of n (m # ms) = (if n = m then Some 0 else map_option Suc (index_of n ms))"

definition entry_of :: "string list \<Rightarrow> nat \<Rightarrow> rec \<Rightarrow> nat \<times> nat \<times> nat" where
  "entry_of names off r =
     (case index_of (r_seq r) names of
        None \<Rightarrow> (length names, binOf (r_start r) (r_end r), off)
      | Some tid \<Rightarrow> (tid, binOf (r_start r) (r_end r), off))"

definition buildIndex :: "ti_conf \<Rightarrow> rec list \<Rightarrow> error + tbi" where
  \<comment> \<open>Modelled from the spec: \<open>build(sortedRecords, columnConfig)\<close> of the Index
      Builder (C source missing). The records are the lines that are neither comments
      nor skipped headers, with the interval the configured columns give.\<close>
  "buildIndex c recs =
     (if \<not> check_sorted [] None recs then Inl UnsortedInput
      else
        (case check_coords recs of
           Some e \<Rightarrow> Inl e
         | None \<Rightarrow>
             (let names = dictionary [] (map r_seq recs)
              in Inr \<lparr>ix_names = names, ix_conf = c,
                      ix_entries = map (\<lambda>off. entry_of names off (recs ! off)) [0..<length recs]\<rparr>)))"

definition spec_build :: "string \<Rightarrow> ti_conf \<Rightarrow> disk \<Rightarrow> int \<times> disk" where
  \<comment> \<open>Modelled from the spec: \<open>buildIndex(path, ...)\<close> behind \<^verbatim>\<open>ti_index_build\<close>
      (C source missing): a failed build returns the C convention's \<open>-1\<close> and persists
      nothing; a successful one writes the companion index file.\<close>
  "spec_build fname c d =
     (case data_files d fname of
        None \<Rightarrow> (- 1, d)
      | Some recs \<Rightarrow>
          (case buildIndex c recs of
             Inl e \<Rightarrow> (- 1, d)
           | Inr ix \<Rightarrow> (0, d\<lparr>index_files := (index_files d)(fname @ ''.tbi'' \<mapsto> ix)\<rparr>)))"

subsection \<open>Region parser\<close>

definition sentinel :: int where
  \<comment> \<open>Modelled from the spec: the sentinel maximum that stands for an unbounded end.\<close>
  "sentinel = max_coord"

definition is_digit :: "char \<Rightarrow> bool" where
  "is_digit c \<longleftrightarrow> 48 \<le> (of_char c :: nat) \<and> (of_char c :: nat) \<le> 57"

definition dec :: "string \<Rightarrow> int option" where
  "dec ds =
     (if ds \<noteq> [] \<and> list_all is_digit ds
      then Some (foldl (\<lambda>n c. 10 * n + (int (of_char c) - 48)) 0 ds)
      else None)"

definition parse_region :: "string \<Rightarrow> error + string \<times> int \<times> int" where
  \<comment> \<open>Modelled from the spec: the Region Parser (C source missing), grammar
      \<open>SEQNAME[:START[-END]]\<close> with 1-based inclusive START and END:
      \<open>start0 = START - 1\<close>, \<open>end0 = END\<close>, the sentinel where END is omitted,
      \<open>[0, sentinel)\<close> for a bare name, \<open>InvalidRange\<close> for \<open>END < START\<close>.\<close>
  "parse_region reg =
     (let name = takeWhile (\<lambda>c. c \<noteq> CHR '':'') reg;
          rest = dropWhile (\<lambda>c. c \<noteq> CHR '':'') reg
      in if rest = [] then Inr (name, 0, sentinel)
         else
           (let a = takeWhile (\<lambda>c. c \<noteq> CHR ''-'') (tl rest);
                b = dropWhile (\<lambda>c. c \<noteq> CHR ''-'') (tl rest)
            in case dec a of
                 None \<Rightarrow> Inl InvalidRange
               | Some st \<Rightarrow>
                   if b = [] then Inr (name, st - 1, sentinel)
                   else
                     (case dec (tl b) of
                        None \<Rightarrow> Inl InvalidRange
                      | Some en \<Rightarrow>
                          if en < st then Inl InvalidRange else Inr (name, st - 1, en))))"

subsection \<open>Query engine\<close>

definition overlaps :: "rec \<Rightarrow> int \<Rightarrow> int \<Rightarrow> bool" where
  \<comment> \<open>The half-open intervals \<open>[r_start, r_end)\<close> and \<open>[s, e)\<close> have a point in common.\<close>
  "overlaps r s e \<longleftrightarrow> max (r_start r) s < min (r_end r) e"

definition candidates :: "tbi \<Rightarrow> nat \<Rightarrow> int \<Rightarrow> int \<Rightarrow> nat list" where
  \<comment> \<open>Modelled from the spec: steps (2) and (3) of the Query Engine, the positions
      filed under the candidate bins of the sequence, in file order. The pruning and
      merging of steps (4) and (5) drop no position that holds a qualifying record and
      are not modelled.\<close>
  "candidates ix tid s e =
     map (\<lambda>(t, b, off). off)
       (filter (\<lambda>(t, b, off). t = tid \<and> b \<in> set (binsOverlapping s e)) (ix_entries ix))"

definition scan :: "rec list \<Rightarrow> nat list \<Rightarrow> int \<Rightarrow> int \<Rightarrow> string list" where
  \<comment> \<open>Modelled from the spec: steps (6) and (7), every candidate record is read and
      yielded only if its own interval truly overlaps the range.\<close>
  "scan recs offs s e =
     map r_line (filter (\<lambda>r. overlaps r s e) (map (\<lambda>off. recs ! off) (filter (\<lambda>off. off < length recs) offs)))"

definition query :: "disk \<Rightarrow> string \<Rightarrow> string \<Rightarrow> int \<Rightarrow> int \<Rightarrow> error + (error + string) list" where
  \<comment> \<open>Modelled from the spec: \<open>query(index, sequenceId, start, end)\<close> of the Query
      Engine behind \<^verbatim>\<open>ti_query\<close> (C source missing).\<close>
  "query d fn name s e =
     (case index_files d (fn @ ''.tbi'') of
        None \<Rightarrow> Inl IndexMissing
      | Some ix \<Rightarrow>
          (case index_of name (ix_names ix) of
             None \<Rightarrow> Inl UnknownSequence
           | Some tid \<Rightarrow>
               Inr (map Inr
                 (scan (case data_files d fn of None \<Rightarrow> [] | Some recs \<Rightarrow> recs)
                    (candidates ix tid s e) s e))))"

definition querys :: "disk \<Rightarrow> string \<Rightarrow> string \<Rightarrow> error + (error + string) list" where
  \<comment> \<open>Modelled from the spec: the Region Parser in front of the Query Engine, behind
      \<^verbatim>\<open>ti_querys\<close> (C source missing).\<close>
  "querys d fn reg =
     (case parse_region reg of
        Inl err \<Rightarrow> Inl err
      | Inr (name, s, e) \<Rightarrow> query d fn name s e)"

definition listSequences :: "disk \<Rightarrow> string \<Rightarrow> string list" where
  \<comment> \<open>Modelled from the spec: \<open>listSequences(handle)\<close> behind \<^verbatim>\<open>ti_seqname\<close>
      (C source missing), the names in dictionary order.\<close>
  "listSequences d fn =
     (case index_files d (fn @ ''.tbi'') of None \<Rightarrow> [] | Some ix \<Rightarrow> ix_names ix)"

definition get_conf :: "disk \<Rightarrow> string \<Rightarrow> ti_conf" where
  \<comment> \<open>Modelled from the spec: the build metadata of the index behind \<^verbatim>\<open>ti_get_conf\<close>
      (C source missing).\<close>
  "get_conf d fn =
     (case index_files d (fn @ ''.tbi'') of
        None \<Rightarrow> make_conf 0 0 0 (CHR ''#'') 0
      | Some ix \<Rightarrow> ix_conf ix)"

definition records_read :: "error + (error + string) list \<Rightarrow> string list" where
  \<comment> \<open>Modelled from the spec: what of a query passes the C interface, which has
      pointers only. The iterator of a failed query hands out no record, and a failure
      while reading ends the records as the NULL of \<^verbatim>\<open>ti_read\<close> does.\<close>
  "records_read r =
     (case r of
        Inl err \<Rightarrow> []
      | Inr items \<Rightarrow> map projr (takeWhile (\<lambda>x. \<not> isl x) items))"

definition spec_engine :: engine where
  "spec_engine =
     \<lparr>eng_build = spec_build, eng_seqname = listSequences, eng_conf = get_conf,
      eng_querys = (\<lambda>d fn reg. records_read (querys d fn reg)),
      eng_query = (\<lambda>d fn name s e. records_read (query d fn name s e))\<rparr>"

subsection \<open>The example of the specification\<close>

definition example_recs :: "rec list" where
  "example_recs =
     [\<lparr>r_seq = ''chr1'', r_start = 1737, r_end = 2090, r_line = ''chr1 1737 2090''\<rparr>,
      \<lparr>r_seq = ''chr1'', r_start = 2090, r_end = 3000, r_line = ''chr1 2090 3000''\<rparr>,
      \<lparr>r_seq = ''chr2'', r_start = 10, r_end = 20, r_line = ''chr2 10 20''\<rparr>]"

definition empty_world :: "disk \<Rightarrow> world" where
  "empty_world d =
     \<lparr>disk = d, opened = {}, next_handle = 0, iters = Map.empty, next_iter = 0, trace = []\<rparr>"

definition example_disk :: disk where
  \<comment> \<open>The example data file, not indexed yet.\<close>
  "example_disk =
     \<lparr>data_files = [''example.gtf.gz'' \<mapsto> example_recs], index_files = Map.empty\<rparr>"

definition gtf_conf :: ti_conf where
  \<comment> \<open>The columns the constructor uses for \<^verbatim>\<open>.gtf.gz\<close>.\<close>
  "gtf_conf = make_conf 1 4 5 (CHR ''#'') 0"

definition indexed_disk :: disk where
  \<comment> \<open>The example data file with the companion index the engine builds for it.\<close>
  "indexed_disk = snd (spec_build ''example.gtf.gz'' gtf_conf example_disk)"

definition example_obj :: tabix_obj where
  "example_obj =
     \<lparr>self_tabix = Tabix_t 0 ''example.gtf.gz'', self_conf = gtf_conf,
      self_fn = ''example.gtf.gz''\<rparr>"

definition example_world :: world where
  \<comment> \<open>The world in which \<open>example_obj\<close> is open.\<close>
  "example_world = (empty_world indexed_disk)\<lparr>opened := {0}, next_handle := 1\<rparr>"

subsection \<open>What a generator holds\<close>

definition owned :: "gen \<Rightarrow> nat set" where
  \<comment> \<open>The native iterator a suspended generator still refers to.\<close>
  "owned g = (case g of Suspended self it \<Rightarrow> {it} | _ \<Rightarrow> {})"

definition gen_inv :: "world \<Rightarrow> gen \<times> world \<Rightarrow> bool" where
  \<comment> \<open>What holds of a generator started in \<open>w0\<close> at every moment: each native iterator
      created since is either the one the suspended generator holds, and live, or
      destroyed.\<close>
  "gen_inv w0 s =
     (case s of (g, w) \<Rightarrow>
        next_iter w0 \<le> next_iter w
      \<and> (\<forall>it. next_iter w0 \<le> it \<and> it < next_iter w \<longrightarrow>
            (if it \<in> owned g then iters w it \<noteq> None
             else iters w it = None \<and> Ti_iter_destroy it \<in> set (trace w)))
      \<and> (\<forall>it. it < next_iter w0 \<longrightarrow> iters w it = iters w0 it)
      \<and> owned g \<subseteq> {next_iter w0 ..< next_iter w}
      \<and> ((\<exists>self region start en. g = Created self region start en) \<longrightarrow> next_iter w = next_iter w0))"

definition example_run :: "gen \<times> world" where
  \<comment> \<open>One record pulled from a query of the example, then the generator dropped.\<close>
  "example_run =
     run_ops spec_engine [Next, Close] (Created example_obj ''chr1'' None None, example_world)"

subsection \<open>What the constructor does after a build\<close>


subsection \<open>Order of first occurrence\<close>

definition first_pos :: "'a \<Rightarrow> 'a list \<Rightarrow> nat" where
  \<comment> \<open>Where \<open>a\<close> is first declared in \<open>xs\<close>.\<close>
  "first_pos a xs = length (takeWhile (\<lambda>x. x \<noteq> a) xs)"

subsection \<open>Unsorted input\<close>

abbreviation in_order :: "rec \<Rightarrow> rec \<Rightarrow> bool" where
  "in_order a b \<equiv> r_seq a = r_seq b \<longrightarrow> r_start a \<le> r_start b"

definition unsorted_recs :: "rec list" where
  \<comment> \<open>The start of \<open>chr1\<close> decreases from 100 to 50, with a record of \<open>chr2\<close> between.\<close>
  "unsorted_recs =
     [\<lparr>r_seq = ''chr1'', r_start = 100, r_end = 200, r_line = ''chr1 100 200''\<rparr>,
      \<lparr>r_seq = ''chr2'', r_start = 5, r_end = 9, r_line = ''chr2 5 9''\<rparr>,
      \<lparr>r_seq = ''chr1'', r_start = 50, r_end = 60, r_line = ''chr1 50 60''\<rparr>]"

definition unsorted_disk :: disk where
  "unsorted_disk = \<lparr>data_files = [''u.bed.gz'' \<mapsto> unsorted_recs], index_files = Map.empty\<rparr>"

section \<open>Properties\<close>

subsection \<open>The assertion on the arguments of a query\<close>

text \<open>
  C10, as stated: a call of \<^verbatim>\<open>query\<close> with \<^verbatim>\<open>start\<close> omitted and \<^verbatim>\<open>end\<close> given fails
  with an assertion error. It does not: \<^verbatim>\<open>__call__\<close> is a generator function, the call
  returns a generator and runs none of the body, so for the example object the call
  with \<^verbatim>\<open>end=5\<close> returns normally.
\<close>

theorem call_end_without_start_returns:
  "fst (Tabix_call example_obj ''chr1'' None (Some 5) example_world)
     = Inr (Created example_obj ''chr1'' None (Some 5))"
  by (simp add: Tabix_call_def)

text \<open>
  C10, amended: the call with \<^verbatim>\<open>start\<close> omitted and \<^verbatim>\<open>end\<close> given returns a generator
  and leaves the world as it is; the first step of that generator raises the assertion
  error, finishes the generator and leaves the world as it is: no native call is logged
  and no native iterator exists that did not exist before.
\<close>

theorem assert_precedes_native_query:
  "Tabix_call self region None (Some e) w = (Inr (Created self region None (Some e)), w)
   \<and> gen_next eng (Created self region None (Some e)) w = (Raise AssertionError, Finished, w)"
  by (simp add: Tabix_call_def gen_next_def call_start_def)

subsection \<open>Evaluating the example\<close>

lemma in_level_bins:
  "b \<in> set (level_bins l s e) \<longleftrightarrow>
     level_offset l \<le> b \<and> max 0 (s div bin_width l) \<le> int (b - level_offset l)
       \<and> int (b - level_offset l) \<le> (e - 1) div bin_width l"
proof
  assume "b \<in> set (level_bins l s e)"
  then obtain k where "max 0 (s div bin_width l) \<le> k" "k \<le> (e - 1) div bin_width l"
    "b = bin_id l k"
    by (auto simp: level_bins_def)
  then show "level_offset l \<le> b \<and> max 0 (s div bin_width l) \<le> int (b - level_offset l)
       \<and> int (b - level_offset l) \<le> (e - 1) div bin_width l"
    by (simp add: bin_id_def)
next
  assume a: "level_offset l \<le> b \<and> max 0 (s div bin_width l) \<le> int (b - level_offset l)
       \<and> int (b - level_offset l) \<le> (e - 1) div bin_width l"
  then have "b = bin_id l (int (b - level_offset l))"
    unfolding bin_id_def by linarith
  with a show "b \<in> set (level_bins l s e)"
    unfolding level_bins_def by (metis (no_types, lifting) atLeastAtMost_iff image_eqI set_map set_upto)
qed

lemma in_binsOverlapping:
  "b \<in> set (binsOverlapping s e) \<longleftrightarrow> (\<exists>l \<in> {0, 1, 2, 3, 4}. b \<in> set (level_bins l s e))"
  by (simp add: binsOverlapping_def)

lemma example_index:
  "buildIndex gtf_conf example_recs =
     Inr \<lparr>ix_names = [''chr1'', ''chr2''], ix_conf = gtf_conf,
          ix_entries = [(0, 585, 0), (0, 585, 1), (1, 585, 2)]\<rparr>"
  by (simp add: buildIndex_def example_recs_def max_coord_def entry_of_def binOf_def
      bin_id_def level_offset_def bin_width_def)

lemma indexed_disk_simps:
  "index_files indexed_disk ''example.gtf.gz.tbi'' =
     Some \<lparr>ix_names = [''chr1'', ''chr2''], ix_conf = gtf_conf,
          ix_entries = [(0, 585, 0), (0, 585, 1), (1, 585, 2)]\<rparr>"
  "data_files indexed_disk ''example.gtf.gz'' = Some example_recs"
  by (simp_all add: indexed_disk_def spec_build_def example_disk_def example_index)

lemma querys_chr1:
  "querys indexed_disk ''example.gtf.gz'' ''chr1''
     = Inr [Inr ''chr1 1737 2090'', Inr ''chr1 2090 3000'']"
  by (simp add: querys_def parse_region_def sentinel_def max_coord_def query_def
      indexed_disk_simps candidates_def scan_def example_recs_def overlaps_def
      in_binsOverlapping in_level_bins level_offset_def bin_width_def)

lemma example_world_simps:
  "disk example_world = indexed_disk" "next_iter example_world = 0"
  "iters example_world = Map.empty" "trace example_world = []"
  by (simp_all add: example_world_def empty_world_def)

lemma example_run_simps:
  "fst example_run = Finished" "next_iter (snd example_run) = 1"
  by (simp_all add: example_run_def gen_next_def call_start_def ti_querys_def Let_def log_def
      spec_engine_def example_obj_def example_world_simps querys_chr1 records_read_def
      new_iter_def call_loop_def ti_read_def gen_close_def ti_iter_destroy_def)

subsection \<open>The native iterator is released on every exit path\<close>

lemma call_loop_cases:
  "call_loop self it w = (out, g', w') \<Longrightarrow>
     next_iter w' = next_iter w
     \<and> (\<forall>j. j \<noteq> it \<longrightarrow> iters w' j = iters w j)
     \<and> set (trace w) \<subseteq> set (trace w')
     \<and> ((\<exists>ln. out = Yield ln) \<and> g' = Suspended self it \<and> (iters w it \<noteq> None \<longrightarrow> iters w' it \<noteq> None)
        \<or> (\<forall>ln. out \<noteq> Yield ln) \<and> g' = Finished \<and> iters w' it = None
           \<and> Ti_iter_destroy it \<in> set (trace w'))"
  by (auto simp: call_loop_def ti_read_def ti_iter_destroy_def log_def Let_def
      split: option.splits list.splits)

lemma query_cases:
  "ti_query eng t name s e w = (it, w') \<Longrightarrow>
     set (trace w) \<subseteq> set (trace w') \<and> it = next_iter w \<and> next_iter w' = Suc it
     \<and> iters w' it \<noteq> None \<and> (\<forall>j. j \<noteq> it \<longrightarrow> iters w' j = iters w j)"
  by (auto simp: ti_query_def new_iter_def log_def Let_def)

lemma querys_cases:
  "ti_querys eng t reg w = (it, w') \<Longrightarrow>
     set (trace w) \<subseteq> set (trace w') \<and> it = next_iter w \<and> next_iter w' = Suc it
     \<and> iters w' it \<noteq> None \<and> (\<forall>j. j \<noteq> it \<longrightarrow> iters w' j = iters w j)"
  by (auto simp: ti_querys_def new_iter_def log_def Let_def)

lemma inv_loop:
  assumes inv: "gen_inv w0 (Suspended self it, w)"
    and step: "call_loop self it w = (out, g', w')"
  shows "gen_inv w0 (g', w')"
proof -
  from call_loop_cases[OF step]
  have n: "next_iter w' = next_iter w"
    and other: "\<And>j. j \<noteq> it \<Longrightarrow> iters w' j = iters w j"
    and tr: "set (trace w) \<subseteq> set (trace w')"
    and it: "g' = Suspended self it \<and> (iters w it \<noteq> None \<longrightarrow> iters w' it \<noteq> None)
        \<or> g' = Finished \<and> iters w' it = None \<and> Ti_iter_destroy it \<in> set (trace w')"
    by auto
  from inv have range: "next_iter w0 \<le> it" "it < next_iter w" and live: "iters w it \<noteq> None"
    by (auto simp: gen_inv_def owned_def split: if_splits)
  from inv have rest: "\<And>j. next_iter w0 \<le> j \<Longrightarrow> j < next_iter w \<Longrightarrow> j \<noteq> it
      \<Longrightarrow> iters w j = None \<and> Ti_iter_destroy j \<in> set (trace w)"
    by (auto simp: gen_inv_def owned_def split: if_splits)
  from inv have old: "\<And>j. j < next_iter w0 \<Longrightarrow> iters w j = iters w0 j"
    by (simp add: gen_inv_def)
  from it show ?thesis
  proof
    assume "g' = Suspended self it \<and> (iters w it \<noteq> None \<longrightarrow> iters w' it \<noteq> None)"
    with n other tr range live rest old show ?thesis
      unfolding gen_inv_def owned_def by (auto simp: subset_iff)
  next
    assume "g' = Finished \<and> iters w' it = None \<and> Ti_iter_destroy it \<in> set (trace w')"
    with n other tr range rest old show ?thesis
      unfolding gen_inv_def owned_def by (auto simp: subset_iff) metis+
  qed
qed

lemma inv_fresh:
  assumes inv: "gen_inv w0 (Created self region start en, w)"
    and w1: "next_iter w1 = Suc (next_iter w)" "iters w1 (next_iter w) \<noteq> None"
      "\<forall>j. j \<noteq> next_iter w \<longrightarrow> iters w1 j = iters w j" "set (trace w) \<subseteq> set (trace w1)"
  shows "gen_inv w0 (Suspended self (next_iter w), w1)"
  using inv w1 unfolding gen_inv_def owned_def
  by (auto simp: less_Suc_eq)

lemma inv_failed:
  assumes inv: "gen_inv w0 (Created self region start en, w)"
    and w1: "next_iter w1 = next_iter w" "iters w1 = iters w"
  shows "gen_inv w0 (Finished, w1)"
  using inv w1 unfolding gen_inv_def owned_def
  by auto

lemma inv_start:
  assumes inv: "gen_inv w0 (Created self region start en, w)"
    and st: "call_start eng self region start en w = (out, g', w')"
  shows "gen_inv w0 (g', w')"
proof (cases start)
  case None
  show ?thesis
  proof (cases en)
    case (Some e)
    with None st inv_failed[OF inv, of w] show ?thesis
      by (simp add: call_start_def)
  next
    case en: None
    obtain it w1 where q: "ti_querys eng (self_tabix self) region w = (it, w1)"
      by (cases "ti_querys eng (self_tabix self) region w")
    from querys_cases[OF q] have "gen_inv w0 (Suspended self it, w1)"
      by (auto intro!: inv_fresh[OF inv])
    moreover from None en st q have "call_loop self it w1 = (out, g', w')"
      by (simp add: call_start_def)
    ultimately show ?thesis
      by (rule inv_loop)
  qed
next
  case (Some s)
  show ?thesis
  proof (cases en)
    case None
    with Some st inv_failed[OF inv, of w] show ?thesis
      by (simp add: call_start_def)
  next
    case en: (Some e)
    obtain it w1 where q: "ti_query eng (self_tabix self) region s e w = (it, w1)"
      by (cases "ti_query eng (self_tabix self) region s e w")
    from query_cases[OF q] have "gen_inv w0 (Suspended self it, w1)"
      by (auto intro!: inv_fresh[OF inv])
    moreover from Some en st q have "call_loop self it w1 = (out, g', w')"
      by (simp add: call_start_def)
    ultimately show ?thesis
      by (rule inv_loop)
  qed
qed

lemma inv_finished: "gen_inv w0 (g, w) \<Longrightarrow> gen_inv w0 (Finished, w) \<or> (\<exists>self it. g = Suspended self it)"
  unfolding gen_inv_def owned_def by (cases g) auto

lemma inv_destroy:
  "gen_inv w0 (Suspended self it, w) \<Longrightarrow> gen_inv w0 (Finished, ti_iter_destroy it w)"
  unfolding gen_inv_def owned_def
  by (auto simp: ti_iter_destroy_def log_def)

lemma inv_next:
  assumes "gen_inv w0 (g, w)"
  shows "gen_inv w0 (snd (gen_next eng g w))"
proof (cases g)
  case (Created self region start en)
  with assms inv_start[of w0 self region start en w eng] show ?thesis
    by (cases "call_start eng self region start en w") (simp add: gen_next_def)
next
  case (Suspended self it)
  with assms inv_loop[of w0 self it w] show ?thesis
    by (cases "call_loop self it w") (simp add: gen_next_def)
next
  case Finished
  with assms show ?thesis by (simp add: gen_next_def)
qed

lemma inv_close:
  assumes "gen_inv w0 (g, w)"
  shows "gen_inv w0 (gen_close g w)"
  using assms inv_finished[OF assms] inv_destroy[of w0 _ _ w]
  by (cases g) (auto simp: gen_close_def)

lemma inv_throw:
  assumes "gen_inv w0 (g, w)"
  shows "gen_inv w0 (snd (gen_throw x g w))"
  using assms inv_finished[OF assms] inv_destroy[of w0 _ _ w]
  by (cases g) (auto simp: gen_throw_def)

lemma inv_apply_op: "gen_inv w0 s \<Longrightarrow> gen_inv w0 (apply_op eng x s)"
  by (cases s; cases x) (simp_all add: inv_next inv_close inv_throw)

lemma inv_run_ops: "gen_inv w0 s \<Longrightarrow> gen_inv w0 (run_ops eng ops s)"
  by (induction ops arbitrary: s) (simp_all add: inv_apply_op)

lemma inv_initial: "gen_inv w (Created self region start en, w)"
  by (auto simp: gen_inv_def owned_def)

lemma run_ops_snoc: "run_ops eng (xs @ [x]) s = apply_op eng x (run_ops eng xs s)"
  by (induction xs arbitrary: s) simp_all

lemma exit_finishes:
  "x \<noteq> Next \<Longrightarrow> fst (apply_op eng x s) = Finished"
  by (cases s; cases x) (auto simp: gen_close_def gen_throw_def split: gen.splits)

lemma next_finishes:
  "(\<forall>ln. fst (gen_next eng g w) \<noteq> Yield ln) \<Longrightarrow> fst (snd (gen_next eng g w)) = Finished"
  by (auto simp: gen_next_def call_start_def call_loop_def
      split: gen.splits option.splits prod.splits)

text \<open>
  C4: however the caller drives the generator of a query (pulling records, closing or
  dropping it, throwing into it), every native iterator created since the call is
  either the one the suspended generator still holds, and live, or it has been handed
  to \<^verbatim>\<open>ti_iter_destroy\<close> and is gone; no other iterator is touched. Closing the
  generator and throwing into it (an error raised at the \<^verbatim>\<open>yield\<close> while the caller
  iterates) finish it, and so does every pull that yields no record (the records are
  at their end), so on each exit path the iterator is destroyed.
\<close>

theorem iterator_never_leaked:
  assumes run: "run_ops eng ops (Created self region start en, w) = (g', w')"
  shows "(\<forall>it. next_iter w \<le> it \<and> it < next_iter w' \<longrightarrow>
            (if it \<in> owned g' then iters w' it \<noteq> None
             else iters w' it = None \<and> Ti_iter_destroy it \<in> set (trace w')))
       \<and> (\<forall>it. it < next_iter w \<longrightarrow> iters w' it = iters w it)
       \<and> owned g' \<subseteq> {next_iter w ..< next_iter w'}
       \<and> (ops \<noteq> [] \<and> last ops \<noteq> Next \<longrightarrow> g' = Finished)
       \<and> ((\<forall>ln. fst (gen_next eng g' w') \<noteq> Yield ln)
            \<longrightarrow> fst (snd (gen_next eng g' w')) = Finished)"
proof -
  have "gen_inv w (g', w')"
    using inv_run_ops[OF inv_initial, where eng = eng and ops = ops] run by metis
  moreover have "ops \<noteq> [] \<and> last ops \<noteq> Next \<longrightarrow> g' = Finished"
  proof (cases ops rule: rev_cases)
    case Nil
    then show ?thesis by simp
  next
    case (snoc xs x)
    with run exit_finishes[of x eng "run_ops eng xs (Created self region start en, w)"]
    show ?thesis by (auto simp: run_ops_snoc)
  qed
  ultimately show ?thesis
    using next_finishes[of eng g' w'] unfolding gen_inv_def by simp
qed

theorem iterator_never_leaked_witness:
  "fst example_run = Finished \<and> iters (snd example_run) 0 = None
   \<and> Ti_iter_destroy 0 \<in> set (trace (snd example_run))"
  using iterator_never_leaked[OF trans[OF example_run_def[symmetric] prod.collapse[symmetric]]]
  by (simp add: example_run_simps example_world_simps owned_def)

subsection \<open>close\<close>


subsection \<open>Running a generator to its end\<close>






subsection \<open>Unknown sequence names\<close>







subsection \<open>The constructor\<close>

lemma init_open_ok:
  "index_files (disk w) (fn @ ''.tbi'') = Some ix \<Longrightarrow>
     init_open eng fn w =
       (Inr \<lparr>self_tabix = Tabix_t (next_handle w) fn, self_conf = eng_conf eng (disk w) fn,
              self_fn = fn\<rparr>,
        w\<lparr>opened := insert (next_handle w) (opened w), next_handle := Suc (next_handle w),
           trace := trace w @ [Ti_open fn, Ti_lazy_index_load (next_handle w),
                               Ti_get_conf (next_handle w)]\<rparr>)"
  by (simp add: init_open_def ti_open_def ti_lazy_index_load_def ti_get_conf_def log_def Let_def)

lemma Tabix_del_noop: "Tabix_del obj w = (Inr (), w)"
  by (simp add: Tabix_del_def ti_index_destroy_def)

lemma init_indexed:
  "index_files (disk w) (fn @ ''.tbi'') = Some ix \<Longrightarrow>
     Tabix_init eng fn w = Some (init_open eng fn w)"
  by (subst Tabix_init.simps) (simp add: exists_path_def)

lemma init_builds:
  assumes "\<not> exists_path (disk w) (fn @ ''.tbi'')"
    and "build_args fn = Some (a, b, c, ch, k)"
  shows "Tabix_init eng fn w =
     Option.bind (Tabix_build eng fn a b c ch k w)
       (\<lambda>(r, w2). case r of
            Inl e \<Rightarrow> Some (Inl e, w2)
          | Inr built \<Rightarrow> Some (init_open eng fn (snd (Tabix_del built w2))))"
  using assms
  by (subst Tabix_init.simps) (simp add: Tabix_build_def split: prod.splits)



lemma example_build:
  "spec_build ''example.gtf.gz'' gtf_conf example_disk = (0, indexed_disk)"
  by (simp add: indexed_disk_def spec_build_def example_disk_def example_index)

lemma example_disk_simps:
  "exists_path example_disk p \<longleftrightarrow> p = ''example.gtf.gz''"
  "index_files example_disk = Map.empty"
  by (auto simp: exists_path_def example_disk_def)

lemma endswith_example:
  "endswith ''example.gtf.gz'' ''.gtf.gz''" "\<not> endswith ''example.gtf.gz'' ''.bed.gz''"
  "\<not> endswith ''notes.txt'' ''.bed.gz''" "\<not> endswith ''notes.txt'' ''.gff.gz''"
  "\<not> endswith ''notes.txt'' ''.gtf.gz''" "\<not> endswith ''notes.txt'' ''.vcf.gz''"
  by (simp_all add: endswith_def suffix_def Cons_eq_append_conv)

lemma example_build_args:
  "build_args ''example.gtf.gz'' = Some (1, 4, 5, CHR ''#'', 0)" "build_args ''notes.txt'' = None"
  by (simp_all add: build_args_def endswith_example)

lemma example_ti_index_build:
  "ti_index_build spec_engine ''example.gtf.gz'' gtf_conf (empty_world example_disk)
     = (0, (empty_world indexed_disk)\<lparr>trace := [Ti_index_build ''example.gtf.gz'' gtf_conf]\<rparr>)"
  by (simp add: ti_index_build_def spec_engine_def empty_world_def log_def example_build)



text \<open>
  C6, as stated: for a path without companion index the constructor fails
  \<open>IndexMissing\<close> and builds nothing. For the example file, not indexed yet, the
  constructor returns an instance, and the first native call it makes is the build.
\<close>

theorem init_builds_missing_index:
  "\<not> exists_path example_disk ''example.gtf.gz.tbi''
   \<and> Tabix_init spec_engine ''example.gtf.gz'' (empty_world example_disk)
     = Some (Inr \<lparr>self_tabix = Tabix_t 1 ''example.gtf.gz'', self_conf = gtf_conf,
                  self_fn = ''example.gtf.gz''\<rparr>,
             \<lparr>disk = indexed_disk, opened = {1, 0}, next_handle = 2, iters = Map.empty,
              next_iter = 0,
              trace = [Ti_index_build ''example.gtf.gz'' gtf_conf,
                       Ti_open ''example.gtf.gz'', Ti_lazy_index_load 0, Ti_get_conf 0,
                       Ti_open ''example.gtf.gz'', Ti_lazy_index_load 1, Ti_get_conf 1]\<rparr>)"
proof -
  have ix: "index_files (disk ((empty_world indexed_disk)\<lparr>trace := [Ti_index_build ''example.gtf.gz'' gtf_conf]\<rparr>))
      (''example.gtf.gz'' @ ''.tbi'') = Some \<lparr>ix_names = [''chr1'', ''chr2''], ix_conf = gtf_conf,
          ix_entries = [(0, 585, 0), (0, 585, 1), (1, 585, 2)]\<rparr>"
    by (simp add: empty_world_def indexed_disk_simps)
  have "Tabix_build spec_engine ''example.gtf.gz'' 1 4 5 (CHR ''#'') 0 (empty_world example_disk)
      = Some (init_open spec_engine ''example.gtf.gz''
          ((empty_world indexed_disk)\<lparr>trace := [Ti_index_build ''example.gtf.gz'' gtf_conf]\<rparr>))"
    using example_ti_index_build init_indexed[OF ix, of spec_engine]
    by (simp add: Tabix_build_def gtf_conf_def)
  then show ?thesis
    using init_builds[of "empty_world example_disk" "''example.gtf.gz''" 1 4 5 "CHR ''#''" 0 spec_engine]
    by (simp add: example_disk_simps example_build_args empty_world_def init_open_ok[OF ix[unfolded empty_world_def]]
        init_open_ok[where ix = "\<lparr>ix_names = [''chr1'', ''chr2''], ix_conf = gtf_conf,
          ix_entries = [(0, 585, 0), (0, 585, 1), (1, 585, 2)]\<rparr>"]
        Tabix_del_noop indexed_disk_simps spec_engine_def get_conf_def)
qed

text \<open>
  C6, amended: for a path without companion index the constructor decides by the
  extension. Where the name has none of the four known extensions it raises the
  generic exception \<^verbatim>\<open>'<fn>.tbi not found and filetype not known'\<close>, not
  \<open>IndexMissing\<close>, and the world is unchanged: nothing is built and no handle is
  opened. Where it has one, the constructor itself runs \<^verbatim>\<open>Tabix.build\<close> and goes on
  with what that returns.
\<close>

theorem init_without_index:
  assumes noidx: "\<not> exists_path (disk w) (fn @ ''.tbi'')"
  shows "(build_args fn = None \<longrightarrow>
            Tabix_init eng fn w
              = Some (Inl (Exception (fn @ ''.tbi not found and filetype not known'')), w))
       \<and> (\<forall>a b c ch k. build_args fn = Some (a, b, c, ch, k) \<longrightarrow>
            Tabix_init eng fn w =
              Option.bind (Tabix_build eng fn a b c ch k w)
                (\<lambda>(r, w2). case r of
                     Inl e \<Rightarrow> Some (Inl e, w2)
                   | Inr built \<Rightarrow> Some (init_open eng fn (snd (Tabix_del built w2)))))"
proof (intro conjI impI allI)
  assume "build_args fn = None"
  with noidx show "Tabix_init eng fn w
              = Some (Inl (Exception (fn @ ''.tbi not found and filetype not known'')), w)"
    by (subst Tabix_init.simps) simp
next
  fix a b c ch k
  assume "build_args fn = Some (a, b, c, ch, k)"
  with noidx show "Tabix_init eng fn w =
              Option.bind (Tabix_build eng fn a b c ch k w)
                (\<lambda>(r, w2). case r of
                     Inl e \<Rightarrow> Some (Inl e, w2)
                   | Inr built \<Rightarrow> Some (init_open eng fn (snd (Tabix_del built w2))))"
    by (rule init_builds)
qed

theorem init_without_index_witness:
  "\<not> exists_path (disk (empty_world example_disk)) (''notes.txt'' @ ''.tbi'')
   \<and> build_args ''notes.txt'' = None
   \<and> Tabix_init spec_engine ''notes.txt'' (empty_world example_disk)
       = Some (Inl (Exception ''notes.txt.tbi not found and filetype not known''),
               empty_world example_disk)
   \<and> build_args ''example.gtf.gz'' = Some (1, 4, 5, CHR ''#'', 0)
   \<and> Tabix_init spec_engine ''example.gtf.gz'' (empty_world example_disk) =
        Option.bind (Tabix_build spec_engine ''example.gtf.gz'' 1 4 5 (CHR ''#'') 0
                       (empty_world example_disk))
          (\<lambda>(r, w2). case r of
               Inl e \<Rightarrow> Some (Inl e, w2)
             | Inr built \<Rightarrow>
                 Some (init_open spec_engine ''example.gtf.gz'' (snd (Tabix_del built w2))))"
  using init_without_index[of "empty_world example_disk" "''notes.txt''" spec_engine]
    init_without_index[of "empty_world example_disk" "''example.gtf.gz''" spec_engine]
  by (simp add: example_disk_simps example_build_args empty_world_def)

subsection \<open>Region strings\<close>

lemma digit_not_separator: "is_digit c \<Longrightarrow> c \<noteq> CHR ''-'' \<and> c \<noteq> CHR '':''"
  by (auto simp: is_digit_def)

lemma dec_digits: "dec a = Some st \<Longrightarrow> a \<noteq> [] \<and> (\<forall>c \<in> set a. c \<noteq> CHR ''-'')"
  by (auto simp: dec_def list_all_iff split: if_splits dest: digit_not_separator)

lemma split_at:
  "x \<notin> set xs \<Longrightarrow> takeWhile (\<lambda>c. c \<noteq> x) (xs @ x # rest) = xs"
  "x \<notin> set xs \<Longrightarrow> dropWhile (\<lambda>c. c \<noteq> x) (xs @ x # rest) = x # rest"
  "x \<notin> set xs \<Longrightarrow> takeWhile (\<lambda>c. c \<noteq> x) xs = xs"
  "x \<notin> set xs \<Longrightarrow> dropWhile (\<lambda>c. c \<noteq> x) xs = []"
  by (induction xs) auto

lemma split_at_colon:
  assumes "CHR '':'' \<notin> set name"
  shows "takeWhile (\<lambda>c. c \<noteq> CHR '':'') (name @ CHR '':'' # rest) = name"
    and "dropWhile (\<lambda>c. c \<noteq> CHR '':'') (name @ CHR '':'' # rest) = CHR '':'' # rest"
    and "takeWhile (\<lambda>c. c \<noteq> CHR '':'') name = name"
    and "dropWhile (\<lambda>c. c \<noteq> CHR '':'') name = []"
  using assms by (simp_all add: split_at)

lemma split_at_dash:
  assumes "dec a = Some st"
  shows "takeWhile (\<lambda>c. c \<noteq> CHR ''-'') (a @ CHR ''-'' # b) = a"
    and "dropWhile (\<lambda>c. c \<noteq> CHR ''-'') (a @ CHR ''-'' # b) = CHR ''-'' # b"
    and "takeWhile (\<lambda>c. c \<noteq> CHR ''-'') a = a"
    and "dropWhile (\<lambda>c. c \<noteq> CHR ''-'') a = []"
proof -
  from dec_digits[OF assms] have "CHR ''-'' \<notin> set a"
    by auto
  then show "takeWhile (\<lambda>c. c \<noteq> CHR ''-'') (a @ CHR ''-'' # b) = a"
    and "dropWhile (\<lambda>c. c \<noteq> CHR ''-'') (a @ CHR ''-'' # b) = CHR ''-'' # b"
    and "takeWhile (\<lambda>c. c \<noteq> CHR ''-'') a = a"
    and "dropWhile (\<lambda>c. c \<noteq> CHR ''-'') a = []"
    by (simp_all add: split_at)
qed

lemma dec_example: "dec ''2090'' = Some 2090" "dec ''3000'' = Some 3000"
  by (simp_all add: dec_def is_digit_def)

lemma query_2089_3000:
  "query indexed_disk ''example.gtf.gz'' ''chr1'' 2089 3000
     = Inr [Inr ''chr1 1737 2090'', Inr ''chr1 2090 3000'']"
  by (simp add: query_def indexed_disk_simps candidates_def scan_def example_recs_def
      overlaps_def in_binsOverlapping in_level_bins level_offset_def bin_width_def)

text \<open>
  C2: a region string \<open>SEQNAME:START-END\<close>, with START and END read as decimal numbers
  and \<open>START \<le> END\<close>, parses to \<open>(SEQNAME, START - 1, END)\<close>: 1-based inclusive becomes
  0-based half-open. With END omitted the end is the sentinel, a bare name parses to
  \<open>[0, sentinel)\<close>, and the query for the string is the query for the parsed triple.
\<close>

theorem region_string_parsed:
  assumes name: "CHR '':'' \<notin> set name"
    and st: "dec a = Some st"
    and en: "dec b = Some en"
  shows "parse_region (name @ '':'' @ a @ ''-'' @ b)
           = (if en < st then Inl InvalidRange else Inr (name, st - 1, en))
       \<and> parse_region (name @ '':'' @ a) = Inr (name, st - 1, sentinel)
       \<and> parse_region name = Inr (name, 0, sentinel)
       \<and> (st \<le> en \<longrightarrow> querys d fn (name @ '':'' @ a @ ''-'' @ b) = query d fn name (st - 1) en)
       \<and> querys d fn name = query d fn name 0 sentinel"
proof -
  have full: "parse_region (name @ '':'' @ a @ ''-'' @ b)
           = (if en < st then Inl InvalidRange else Inr (name, st - 1, en))"
    using st en by (simp add: parse_region_def split_at_colon[OF name] split_at_dash[OF st])
  have open_end: "parse_region (name @ '':'' @ a) = Inr (name, st - 1, sentinel)"
    using st by (simp add: parse_region_def split_at_colon[OF name] split_at_dash[OF st])
  have bare: "parse_region name = Inr (name, 0, sentinel)"
    by (simp add: parse_region_def split_at_colon[OF name])
  from full open_end bare show ?thesis
    by (simp add: querys_def)
qed

theorem region_string_parsed_witness:
  "CHR '':'' \<notin> set ''chr1'' \<and> dec ''2090'' = Some 2090 \<and> dec ''3000'' = Some 3000
   \<and> parse_region ''chr1:2090-3000'' = Inr (''chr1'', 2089, 3000)
   \<and> parse_region ''chr1'' = Inr (''chr1'', 0, sentinel)
   \<and> querys indexed_disk ''example.gtf.gz'' ''chr1:2090-3000''
       = Inr [Inr ''chr1 1737 2090'', Inr ''chr1 2090 3000'']
   \<and> fst (gen_next spec_engine (Created example_obj ''chr1:2090-3000'' None None) example_world)
       = Yield ''chr1 1737 2090''"
proof -
  have q: "querys indexed_disk ''example.gtf.gz'' ''chr1:2090-3000''
       = Inr [Inr ''chr1 1737 2090'', Inr ''chr1 2090 3000'']"
    using region_string_parsed[of "''chr1''" "''2090''" 2090 "''3000''" 3000 indexed_disk "''example.gtf.gz''"]
    by (simp add: dec_example query_2089_3000)
  then have "fst (gen_next spec_engine (Created example_obj ''chr1:2090-3000'' None None) example_world)
       = Yield ''chr1 1737 2090''"
    by (simp add: gen_next_def call_start_def ti_querys_def Let_def log_def spec_engine_def
      records_read_def example_obj_def example_world_simps new_iter_def call_loop_def
      ti_read_def)
  with q show ?thesis
    using region_string_parsed[of "''chr1''" "''2090''" 2090 "''3000''" 3000 indexed_disk "''example.gtf.gz''"]
    by (simp add: dec_example)
qed

subsection \<open>The sequence names\<close>

lemma first_pos_less: "a \<in> set xs \<Longrightarrow> first_pos a xs < length xs"
  unfolding first_pos_def by (induction xs) auto

lemma first_pos_append: "a \<in> set xs \<Longrightarrow> first_pos a (xs @ ys) = first_pos a xs"
  unfolding first_pos_def by (induction xs) auto

lemma first_pos_new: "a \<notin> set xs \<Longrightarrow> first_pos a (xs @ a # ys) = length xs"
  unfolding first_pos_def by (induction xs) auto

lemma dictionary_inv:
  assumes "distinct acc" "set acc = set ps"
    "sorted_wrt (\<lambda>a b. first_pos a ps < first_pos b ps) acc"
  shows "distinct (dictionary acc xs) \<and> set (dictionary acc xs) = set (ps @ xs)
    \<and> sorted_wrt (\<lambda>a b. first_pos a (ps @ xs) < first_pos b (ps @ xs)) (dictionary acc xs)"
  using assms
proof (induction xs arbitrary: acc ps)
  case Nil
  then show ?case by simp
next
  case (Cons n xs)
  let ?acc = "if n \<in> set acc then acc else acc @ [n]"
  have old: "sorted_wrt (\<lambda>a b. first_pos a (ps @ [n]) < first_pos b (ps @ [n])) acc"
    using Cons.prems(3)
    by (rule sorted_wrt_mono_rel[rotated]) (simp add: Cons.prems(2) first_pos_append)
  have d: "distinct ?acc"
    using Cons.prems(1) by simp
  have s: "set ?acc = set (ps @ [n])"
    using Cons.prems(2) by auto
  have o: "sorted_wrt (\<lambda>a b. first_pos a (ps @ [n]) < first_pos b (ps @ [n])) ?acc"
  proof (cases "n \<in> set acc")
    case True
    with old show ?thesis by simp
  next
    case False
    then have "n \<notin> set ps"
      using Cons.prems(2) by simp
    then have "\<forall>a \<in> set acc. first_pos a (ps @ [n]) < first_pos n (ps @ [n])"
      using Cons.prems(2) by (simp add: first_pos_new first_pos_append first_pos_less)
    with False old show ?thesis
      by (simp add: sorted_wrt_append)
  qed
  from Cons.IH[OF d s o] show ?case
    by simp
qed

lemma dictionary_order:
  "distinct (dictionary [] xs) \<and> set (dictionary [] xs) = set xs
   \<and> sorted_wrt (\<lambda>a b. first_pos a xs < first_pos b xs) (dictionary [] xs)"
  using dictionary_inv[of "[]" "[]" xs] by simp

lemma index_of_Some: "index_of n ns = Some i \<Longrightarrow> i < length ns \<and> ns ! i = n"
  by (induction ns arbitrary: i) (auto split: if_splits)

lemma decode_all_ascii: "list_all ascii ns \<Longrightarrow> decode_all ns = Inr ns"
  by (induction ns) (simp_all add: decode_def)

lemma buildIndex_names: "buildIndex c recs = Inr ix \<Longrightarrow> ix_names ix = dictionary [] (map r_seq recs)"
  by (auto simp: buildIndex_def Let_def split: if_splits option.splits)

text \<open>
  C8: \<^verbatim>\<open>sequences\<close> returns the names of the sequence dictionary of the index, in
  dictionary order, and frees the array (names are taken as ASCII text, which
  \<^verbatim>\<open>.decode()\<close> returns unchanged). The id of a name is its 0-based position in that
  list. For an index the builder produced, the names are those of the input, each
  once, in the order in which the input first declares them.
\<close>

theorem sequences_in_dictionary_order:
  assumes ix: "index_files (disk w) (t_fn (self_tabix self) @ ''.tbi'') = Some ix"
    and plain: "list_all ascii (ix_names ix)"
  shows "Tabix_sequences spec_engine self w
           = (Inr (ix_names ix),
              w\<lparr>trace := trace w @ [Ti_seqname (t_id (self_tabix self)), Free]\<rparr>)
    \<and> (\<forall>n i. index_of n (ix_names ix) = Some i \<longrightarrow> i < length (ix_names ix) \<and> ix_names ix ! i = n)
    \<and> (\<forall>c recs. buildIndex c recs = Inr ix \<longrightarrow>
          distinct (ix_names ix) \<and> set (ix_names ix) = set (map r_seq recs)
          \<and> sorted_wrt (\<lambda>a b. first_pos a (map r_seq recs) < first_pos b (map r_seq recs))
               (ix_names ix))"
proof (intro conjI allI impI)
  show "Tabix_sequences spec_engine self w
           = (Inr (ix_names ix),
              w\<lparr>trace := trace w @ [Ti_seqname (t_id (self_tabix self)), Free]\<rparr>)"
    using ix decode_all_ascii[OF plain]
    by (simp add: Tabix_sequences_def ti_seqname_def spec_engine_def listSequences_def
        Let_def free_def log_def map_nth)
next
  fix n i assume "index_of n (ix_names ix) = Some i"
  then show "i < length (ix_names ix)" "ix_names ix ! i = n"
    by (simp_all add: index_of_Some)
next
  fix c recs assume "buildIndex c recs = Inr ix"
  then have n: "ix_names ix = dictionary [] (map r_seq recs)"
    by (rule buildIndex_names)
  show "distinct (ix_names ix)" "set (ix_names ix) = set (map r_seq recs)"
    "sorted_wrt (\<lambda>a b. first_pos a (map r_seq recs) < first_pos b (map r_seq recs))
               (ix_names ix)"
    unfolding n using dictionary_order[of "map r_seq recs"] by blast+
qed

theorem sequences_in_dictionary_order_witness:
  "Tabix_sequences spec_engine example_obj example_world
     = (Inr [''chr1'', ''chr2''], example_world\<lparr>trace := [Ti_seqname 0, Free]\<rparr>)
   \<and> buildIndex gtf_conf example_recs
       = Inr \<lparr>ix_names = [''chr1'', ''chr2''], ix_conf = gtf_conf,
              ix_entries = [(0, 585, 0), (0, 585, 1), (1, 585, 2)]\<rparr>
   \<and> index_of ''chr2'' [''chr1'', ''chr2''] = Some 1"
proof -
  let ?ix = "\<lparr>ix_names = [''chr1'', ''chr2''], ix_conf = gtf_conf,
        ix_entries = [(0, 585, 0), (0, 585, 1), (1, 585, 2)]\<rparr>"
  have ix: "index_files (disk example_world) (t_fn (self_tabix example_obj) @ ''.tbi'') = Some ?ix"
    by (simp add: example_world_simps example_obj_def indexed_disk_simps)
  have plain: "list_all ascii (ix_names ?ix)"
    by (simp add: ascii_def)
  from sequences_in_dictionary_order[OF ix plain, THEN conjunct1]
  have "Tabix_sequences spec_engine example_obj example_world
     = (Inr [''chr1'', ''chr2''], example_world\<lparr>trace := [Ti_seqname 0, Free]\<rparr>)"
    by (simp add: example_world_simps example_obj_def)
  then show ?thesis
    by (simp add: example_index)
qed

subsection \<open>Unsorted input\<close>

lemma check_sorted_from:
  assumes "check_sorted seen (Some (q, s)) rs" "q \<in> set seen"
  shows "(\<forall>r \<in> set rs. r_seq r = q \<longrightarrow> s \<le> r_start r)
       \<and> (\<forall>r \<in> set rs. r_seq r \<noteq> q \<longrightarrow> r_seq r \<notin> set seen)
       \<and> sorted_wrt in_order rs"
  using assms
proof (induction rs arbitrary: seen q s)
  case Nil
  then show ?case by simp
next
  case (Cons r rs)
  show ?case
  proof (cases "r_seq r = q")
    case True
    with Cons.prems have s: "s \<le> r_start r" and c: "check_sorted seen (Some (q, r_start r)) rs"
      by simp_all
    from Cons.IH[OF c Cons.prems(2)] s True show ?thesis
      by fastforce
  next
    case False
    with Cons.prems have new: "r_seq r \<notin> set seen"
      and c: "check_sorted (r_seq r # seen) (Some (r_seq r, r_start r)) rs"
      by simp_all
    have "r_seq r \<in> set (r_seq r # seen)"
      by simp
    from Cons.IH[OF c this] False new Cons.prems(2) show ?thesis
      by (auto simp del: check_sorted.simps)
  qed
qed

lemma check_sorted_in_order: "check_sorted [] None recs \<Longrightarrow> sorted_wrt in_order recs"
proof (cases recs)
  case Nil
  then show ?thesis by simp
next
  case (Cons r rs)
  assume "check_sorted [] None recs"
  with Cons have "check_sorted [r_seq r] (Some (r_seq r, r_start r)) rs"
    by simp
  from check_sorted_from[OF this] Cons show ?thesis
    by simp
qed

text \<open>
  C3: for an input in which a record starts before an earlier record of the same
  sequence, the builder fails \<open>UnsortedInput\<close>; the build behind \<^verbatim>\<open>ti_index_build\<close>
  then returns \<open>-1\<close> and leaves the disk as it was, so no index file is written, and
  \<^verbatim>\<open>Tabix.build\<close> raises on the \<open>-1\<close> with nothing but the native call logged.
\<close>

theorem unsorted_input_rejected:
  assumes "i < j" "j < length recs" "r_seq (recs ! i) = r_seq (recs ! j)"
    "r_start (recs ! j) < r_start (recs ! i)"
  shows "buildIndex c recs = Inl UnsortedInput
    \<and> (data_files d fname = Some recs \<longrightarrow> spec_build fname c d = (- 1, d))
    \<and> (data_files (disk w) fname = Some recs \<longrightarrow>
         Tabix_build spec_engine fname a b e ch k w
           = Some (Inl AssertionError, log (Ti_index_build fname (make_conf a b e ch k)) w))"
proof -
  have "\<not> sorted_wrt in_order recs"
  proof
    assume "sorted_wrt in_order recs"
    from sorted_wrt_nth_less[OF this assms(1,2)] assms(3,4) show False
      by simp
  qed
  then have "\<not> check_sorted [] None recs"
    using check_sorted_in_order by blast
  then have fail: "\<And>c. buildIndex c recs = Inl UnsortedInput"
    by (simp add: buildIndex_def)
  then show ?thesis
    by (simp add: spec_build_def Tabix_build_def ti_index_build_def spec_engine_def Let_def log_def)
qed

theorem unsorted_input_rejected_witness:
  "buildIndex (make_conf 1 2 3 (CHR ''#'') 0) unsorted_recs = Inl UnsortedInput
   \<and> spec_build ''u.bed.gz'' (make_conf 1 2 3 (CHR ''#'') 0) unsorted_disk = (- 1, unsorted_disk)
   \<and> Tabix_build spec_engine ''u.bed.gz'' 1 2 3 (CHR ''#'') 0 (empty_world unsorted_disk)
       = Some (Inl AssertionError,
               log (Ti_index_build ''u.bed.gz'' (make_conf 1 2 3 (CHR ''#'') 0))
                 (empty_world unsorted_disk))"
  using unsorted_input_rejected[of 0 2 unsorted_recs "make_conf 1 2 3 (CHR ''#'') 0"
      unsorted_disk "''u.bed.gz''" "empty_world unsorted_disk" 1 2 3 "CHR ''#''" 0]
  by (simp add: unsorted_recs_def unsorted_disk_def empty_world_def)

subsection \<open>Overlap correctness of a query\<close>



















end
